theory Spec2Isabelle
  imports Complex_Main "HOL-Library.Sublist" "HOL-Library.Multiset"
begin

section \<open>GitRate front end: saved profiles, filtering, ranking and the rating client\<close>

text \<open>
  The development embeds four pieces of the front end:
  \<^item> \<open>services/storage.js\<close>: the \<open>storage\<close> object over \<open>localStorage\<close>;
  \<^item> \<open>components/SavedProfiles.jsx\<close>: the tier filter and the sort of the saved list;
  \<^item> \<open>components/CompareView.jsx\<close>: the guard and the leaderboard ranking;
  \<^item> \<open>services/api.js\<close>: \<open>rateDeveloper\<close> and its two siblings.

  JavaScript values are modelled as follows. A property that the code reads with
  \<open>?.\<close> or guards with \<open>||\<close> is an \<open>option\<close> (\<open>None\<close> is \<open>undefined\<close>). A thrown
  exception or a rejected promise is the \<open>Inl\<close> of a sum, a normal return the \<open>Inr\<close>.
  Numbers are \<open>real\<close>: the comparators only use the sign of a difference, which for
  finite numbers is the order of the operands.
\<close>

subsection \<open>Data\<close>

record profile_info =
  username :: "string option"
  name :: "string option"
  avatar_url :: "string option"

text \<open>
  The rating result as the back end returns it and as the store keeps it. \<open>summary\<close>
  stands for the fields that no operation here inspects; the object spread of
  \<open>saveProfile\<close> copies them unchanged. \<open>savedAt\<close> is the instant written by
  \<open>new Date().toISOString()\<close>, kept as milliseconds since the epoch.
\<close>

record rating =
  profile :: "profile_info option"
  final_score :: real
  tier :: string
  summary :: string
  savedAt :: "int option"

datatype js_error =
  Error string
  | TypeError string
  | SyntaxError string
  | SecurityError
  | QuotaExceededError

text \<open>\<open>p.profile?.username\<close>\<close>

definition profile_username :: "rating \<Rightarrow> string option" where
  "profile_username p = (case profile p of None \<Rightarrow> None | Some i \<Rightarrow> username i)"

text \<open>\<open>p.profile?.name\<close>\<close>

definition profile_name :: "rating \<Rightarrow> string option" where
  "profile_name p = (case profile p of None \<Rightarrow> None | Some i \<Rightarrow> name i)"

text \<open>
  \<open>x || d\<close> on an optional string: \<open>undefined\<close> and the empty string are falsy, every
  other string is truthy.
\<close>

definition or_else :: "string option \<Rightarrow> string \<Rightarrow> string" where
  "or_else x d = (case x of None \<Rightarrow> d | Some s \<Rightarrow> if s = [] then d else s)"

subsection \<open>localStorage\<close>

text \<open>
  What \<open>JSON.parse\<close> can return. \<open>localStorage\<close> holds whatever string was last
  written under the key, by this code or by anything else, so the parsed value need not
  be an array of records. \<open>Primitive\<close> is a number, a string or a boolean; \<open>Object r\<close>
  is an object, read through the record \<open>r\<close> of the properties the code looks at.
  \<^item> Reading a property of \<open>null\<close> throws a \<open>TypeError\<close>; reading one of any other
    value that does not have it gives \<open>undefined\<close>.
  \<^item> Calling an array method on a value that is not an array throws a \<open>TypeError\<close>.
\<close>

datatype json = Null | Primitive | Object rating | Array "json list"

text \<open>
  The value kept under \<open>STORAGE_KEY\<close>. \<open>Serialized v\<close> is a string that
  \<open>JSON.parse\<close> accepts and reads as \<open>v\<close>, in particular the string
  \<open>JSON.stringify(v)\<close>; \<open>Malformed\<close> is a non-empty string that \<open>JSON.parse\<close>
  rejects; \<open>EmptyString\<close> is \<open>""\<close>.

  \<open>blocked\<close>: every access to \<open>localStorage\<close> throws (storage disabled).
  \<open>full\<close>: \<open>setItem\<close> throws because the quota is exceeded.
\<close>

datatype stored = Serialized json | EmptyString | Malformed

record local_storage =
  item :: "stored option"
  blocked :: bool
  full :: bool

definition getItem :: "local_storage \<Rightarrow> js_error + stored option" where
  "getItem ls = (if blocked ls then Inl SecurityError else Inr (item ls))"

definition setItem :: "local_storage \<Rightarrow> json \<Rightarrow> js_error + local_storage" where
  "setItem ls v =
     (if blocked ls then Inl SecurityError
      else if full ls then Inl QuotaExceededError
      else Inr (ls\<lparr>item := Some (Serialized v)\<rparr>))"


fun JSON_parse :: "stored \<Rightarrow> js_error + json" where
  "JSON_parse (Serialized v) = Inr v"
| "JSON_parse EmptyString = Inl (SyntaxError ''Unexpected end of JSON input'')"
| "JSON_parse Malformed = Inl (SyntaxError ''Unexpected token'')"

text \<open>\<open>try { body } catch (e) { handler }\<close>\<close>

definition try_catch :: "js_error + 'a \<Rightarrow> (js_error \<Rightarrow> js_error + 'a) \<Rightarrow> js_error + 'a" where
  "try_catch body handler = (case body of Inl e \<Rightarrow> handler e | Inr v \<Rightarrow> Inr v)"

subsection \<open>Array methods\<close>

text \<open>
  The receiver of \<open>profiles.findIndex\<close>, \<open>profiles.filter\<close> and \<open>profiles.some\<close>:
  the elements when \<open>profiles\<close> is an array, a \<open>TypeError\<close> otherwise.
\<close>

definition array_receiver :: "json \<Rightarrow> js_error + json list" where
  "array_receiver v =
     (case v of
        Array xs \<Rightarrow> Inr xs
      | Null \<Rightarrow> Inl (TypeError ''Cannot read properties of null'')
      | Primitive \<Rightarrow> Inl (TypeError ''is not a function'')
      | Object r \<Rightarrow> Inl (TypeError ''is not a function''))"

text \<open>
  The callbacks can throw, so the methods take a callback with a result in the sum type
  and stop at the first exception. \<open>findIndex\<close> and \<open>some\<close> visit the elements in
  order and stop at the first one that satisfies the callback; \<open>filter\<close> visits all.
  \<open>findIndex\<close> returns \<open>-1\<close> when no element satisfies the callback.
\<close>

fun findIndex :: "('a \<Rightarrow> js_error + bool) \<Rightarrow> 'a list \<Rightarrow> js_error + int" where
  "findIndex P [] = Inr (- 1)"
| "findIndex P (x # xs) =
     (case P x of
        Inl e \<Rightarrow> Inl e
      | Inr b \<Rightarrow>
          if b then Inr 0
          else (case findIndex P xs of
                  Inl e \<Rightarrow> Inl e
                | Inr i \<Rightarrow> Inr (if i < 0 then - 1 else i + 1)))"

fun some :: "('a \<Rightarrow> js_error + bool) \<Rightarrow> 'a list \<Rightarrow> js_error + bool" where
  "some P [] = Inr False"
| "some P (x # xs) =
     (case P x of
        Inl e \<Rightarrow> Inl e
      | Inr b \<Rightarrow> if b then Inr True else some P xs)"

fun array_filter :: "('a \<Rightarrow> js_error + bool) \<Rightarrow> 'a list \<Rightarrow> js_error + 'a list" where
  "array_filter P [] = Inr []"
| "array_filter P (x # xs) =
     (case P x of
        Inl e \<Rightarrow> Inl e
      | Inr b \<Rightarrow>
          (case array_filter P xs of
             Inl e \<Rightarrow> Inl e
           | Inr ys \<Rightarrow> Inr (if b then x # ys else ys)))"

subsection \<open>storage.js\<close>

text \<open>
  \<open>p.profile?.username\<close> for an element \<open>p\<close> of the parsed array: the optional chain
  guards \<open>p.profile\<close>, not \<open>p\<close> itself.
\<close>

definition entry_username :: "json \<Rightarrow> js_error + string option" where
  "entry_username p =
     (case p of
        Null \<Rightarrow> Inl (TypeError ''Cannot read properties of null'')
      | Primitive \<Rightarrow> Inr None
      | Object r \<Rightarrow> Inr (profile_username r)
      | Array xs \<Rightarrow> Inr None)"

text \<open>The callbacks \<open>p => p.profile?.username === username\<close> and
  \<open>p => p.profile?.username !== username\<close>.\<close>

definition username_is :: "string option \<Rightarrow> json \<Rightarrow> js_error + bool" where
  "username_is u p = (case entry_username p of Inl e \<Rightarrow> Inl e | Inr x \<Rightarrow> Inr (x = u))"

definition username_is_not :: "string option \<Rightarrow> json \<Rightarrow> js_error + bool" where
  "username_is_not u p = (case entry_username p of Inl e \<Rightarrow> Inl e | Inr x \<Rightarrow> Inr (x \<noteq> u))"

text \<open>
  \<^verbatim>\<open>
  getSavedProfiles: () => {
      try {
          const data = localStorage.getItem(STORAGE_KEY);
          return data ? JSON.parse(data) : [];
      } catch (e) { console.error(...); return []; }
  }
  \<close>
  The parsed value is returned as it is, whatever it is.
\<close>

definition getSavedProfiles :: "local_storage \<Rightarrow> js_error + json" where
  "getSavedProfiles ls =
     try_catch
       (case getItem ls of
          Inl e \<Rightarrow> Inl e
        | Inr data \<Rightarrow>
            (case data of
               None \<Rightarrow> Inr (Array [])
             | Some EmptyString \<Rightarrow> Inr (Array [])
             | Some s \<Rightarrow> JSON_parse s))
       (\<lambda>e. Inr (Array []))"

text \<open>
  \<^verbatim>\<open>
  saveProfile: (profileData) => {
      try {
          const profiles = storage.getSavedProfiles();
          const username = profileData.profile?.username || 'unknown';
          const existingIndex = profiles.findIndex(p => p.profile?.username === username);
          const savedProfile = { ...profileData, savedAt: new Date().toISOString() };
          if (existingIndex >= 0) {
              profiles[existingIndex] = savedProfile;
          } else {
              profiles.unshift(savedProfile);
              if (profiles.length > 10) profiles.pop();
          }
          localStorage.setItem(STORAGE_KEY, JSON.stringify(profiles));
          return true;
      } catch (e) { console.error(...); return false; }
  }
  \<close>
  The clock read by \<open>new Date()\<close> is the argument \<open>now\<close>. The result is the returned
  boolean and the storage afterwards.
\<close>

definition saveProfile ::
  "local_storage \<Rightarrow> int \<Rightarrow> rating \<Rightarrow> js_error + (bool \<times> local_storage)" where
  "saveProfile ls now profileData =
     try_catch
       (case getSavedProfiles ls of
          Inl e \<Rightarrow> Inl e
        | Inr v \<Rightarrow>
            (let username = or_else (profile_username profileData) ''unknown''
             in case array_receiver v of
                  Inl e \<Rightarrow> Inl e
                | Inr profiles \<Rightarrow>
                    (case findIndex (username_is (Some username)) profiles of
                       Inl e \<Rightarrow> Inl e
                     | Inr existingIndex \<Rightarrow>
                         (let savedProfile = Object (profileData\<lparr>savedAt := Some now\<rparr>);
                              profiles' =
                                (if existingIndex \<ge> 0
                                 then profiles[nat existingIndex := savedProfile]
                                 else (let unshifted = savedProfile # profiles
                                       in if length unshifted > 10 then butlast unshifted
                                          else unshifted))
                          in case setItem ls (Array profiles') of
                               Inl e \<Rightarrow> Inl e
                             | Inr ls' \<Rightarrow> Inr (True, ls')))))
       (\<lambda>e. Inr (False, ls))"

text \<open>
  \<^verbatim>\<open>
  removeProfile: (username) => {
      try {
          const profiles = storage.getSavedProfiles();
          const filtered = profiles.filter(p => p.profile?.username !== username);
          localStorage.setItem(STORAGE_KEY, JSON.stringify(filtered));
          return true;
      } catch (e) { console.error(...); return false; }
  }
  \<close>
  The argument is a JavaScript value, a string or \<open>undefined\<close>: the remove button of
  \<open>SavedProfiles\<close> passes \<open>profile.profile?.username\<close>.
\<close>

definition removeProfile ::
  "local_storage \<Rightarrow> string option \<Rightarrow> js_error + (bool \<times> local_storage)" where
  "removeProfile ls u =
     try_catch
       (case getSavedProfiles ls of
          Inl e \<Rightarrow> Inl e
        | Inr v \<Rightarrow>
            (case array_receiver v of
               Inl e \<Rightarrow> Inl e
             | Inr profiles \<Rightarrow>
                 (case array_filter (username_is_not u) profiles of
                    Inl e \<Rightarrow> Inl e
                  | Inr filtered \<Rightarrow>
                      (case setItem ls (Array filtered) of
                         Inl e \<Rightarrow> Inl e
                       | Inr ls' \<Rightarrow> Inr (True, ls')))))
       (\<lambda>e. Inr (False, ls))"

text \<open>
  \<^verbatim>\<open>
  isProfileSaved: (username) => {
      const profiles = storage.getSavedProfiles();
      return profiles.some(p => p.profile?.username === username);
  }
  \<close>
  There is no \<open>try\<close> here: an exception of \<open>some\<close> or of its callback reaches the
  caller.
\<close>

definition isProfileSaved :: "local_storage \<Rightarrow> string option \<Rightarrow> js_error + bool" where
  "isProfileSaved ls u =
     (case getSavedProfiles ls of
        Inl e \<Rightarrow> Inl e
      | Inr v \<Rightarrow>
          (case array_receiver v of
             Inl e \<Rightarrow> Inl e
           | Inr profiles \<Rightarrow> some (username_is u) profiles))"


text \<open>
  A run of \<open>saveProfile\<close> calls, each with the clock value it reads; the storage is
  threaded through, as the calls of \<open>handleSearch\<close> do one after the other.
\<close>

definition storage_after :: "local_storage \<Rightarrow> js_error + (bool \<times> local_storage) \<Rightarrow> local_storage" where
  "storage_after ls r = (case r of Inl e \<Rightarrow> ls | Inr (b, ls') \<Rightarrow> ls')"

fun saveProfiles :: "local_storage \<Rightarrow> (int \<times> rating) list \<Rightarrow> local_storage" where
  "saveProfiles ls [] = ls"
| "saveProfiles ls ((now, profileData) # calls) =
     saveProfiles (storage_after ls (saveProfile ls now profileData)) calls"

subsection \<open>Array.prototype.sort\<close>

text \<open>
  \<open>sort\<close> is a builtin of the language, not code of the repository. ECMAScript (since
  ES2019) requires it to be stable, and for a consistent comparator its result is the
  sorted arrangement in which elements that compare equal keep their input order. The
  model computes that arrangement by insertion from the right: an element goes before
  the first element it does not compare greater than. The comparator returns a number;
  a negative or zero result leaves the left operand first.
\<close>

fun insert_by :: "('a \<Rightarrow> 'a \<Rightarrow> real) \<Rightarrow> 'a \<Rightarrow> 'a list \<Rightarrow> 'a list" where
  "insert_by cmp x [] = [x]"
| "insert_by cmp x (y # ys) =
     (if cmp x y \<le> 0 then x # y # ys else y # insert_by cmp x ys)"

definition array_sort :: "('a \<Rightarrow> 'a \<Rightarrow> real) \<Rightarrow> 'a list \<Rightarrow> 'a list" where
  "array_sort cmp xs = foldr (insert_by cmp) xs []"

subsection \<open>SavedProfiles.jsx: filter and sort\<close>

text \<open>
  \<^verbatim>\<open>
  let filteredProfiles = filter === 'all'
      ? profiles
      : profiles.filter(p => p.tier === filter);
  \<close>
\<close>

definition filterByTier :: "rating list \<Rightarrow> string \<Rightarrow> rating list" where
  "filterByTier profiles flt =
     (if flt = ''all'' then profiles else filter (\<lambda>p. tier p = flt) profiles)"

text \<open>
  \<open>toLowerCase\<close> and \<open>localeCompare\<close> belong to the host (they depend on its Unicode
  tables and locale) and are taken as parameters.
\<close>

record host =
  toLowerCase :: "string \<Rightarrow> string"
  localeCompare :: "string \<Rightarrow> string \<Rightarrow> real"

text \<open>
  \<^verbatim>\<open>
  (a, b) => {
      let comparison = 0;
      switch (sortBy) {
          case 'score': comparison = a.final_score - b.final_score; break;
          case 'name':
              const nameA = (a.profile?.name || a.profile?.username || '').toLowerCase();
              const nameB = (b.profile?.name || b.profile?.username || '').toLowerCase();
              comparison = nameA.localeCompare(nameB); break;
          case 'date':
          default:
              comparison = new Date(a.savedAt || 0) - new Date(b.savedAt || 0); break;
      }
      return sortOrder === 'desc' ? -comparison : comparison;
  }
  \<close>
\<close>

definition display_name :: "host \<Rightarrow> rating \<Rightarrow> string" where
  "display_name h a =
     toLowerCase h (or_else (profile_name a) (or_else (profile_username a) []))"

definition saved_time :: "rating \<Rightarrow> int" where
  "saved_time a = (case savedAt a of None \<Rightarrow> 0 | Some t \<Rightarrow> t)"

definition comparator :: "host \<Rightarrow> string \<Rightarrow> string \<Rightarrow> rating \<Rightarrow> rating \<Rightarrow> real" where
  "comparator h sortBy sortOrder a b =
     (let comparison =
            (if sortBy = ''score'' then final_score a - final_score b
             else if sortBy = ''name'' then localeCompare h (display_name h a) (display_name h b)
             else real_of_int (saved_time a - saved_time b))
      in if sortOrder = ''desc'' then - comparison else comparison)"

text \<open>\<open>[...filteredProfiles].sort(...)\<close>: the copy leaves the input untouched.\<close>

definition sortProfiles :: "host \<Rightarrow> rating list \<Rightarrow> string \<Rightarrow> string \<Rightarrow> rating list" where
  "sortProfiles h profiles sortBy sortOrder = array_sort (comparator h sortBy sortOrder) profiles"

subsection \<open>CompareView.jsx: guard and ranking\<close>

text \<open>
  \<^verbatim>\<open>
  export function CompareView({ profiles, onBack }) {
      if (!profiles || profiles.length < 2) {
          return ( ... Need at least 2 profiles to compare ... );
      }
      const ranked = [...profiles].sort((a, b) => b.final_score - a.final_score);
      ...
  \<close>
  The component either renders the refusal or the leaderboard built from \<open>ranked\<close>.
\<close>

datatype compare_view = NeedAtLeast2Profiles | Leaderboard "rating list"

definition CompareView :: "rating list option \<Rightarrow> compare_view" where
  "CompareView profiles =
     (case profiles of
        None \<Rightarrow> NeedAtLeast2Profiles
      | Some ps \<Rightarrow>
          if length ps < 2 then NeedAtLeast2Profiles
          else Leaderboard (array_sort (\<lambda>a b. final_score b - final_score a) ps))"

subsection \<open>api.js\<close>

text \<open>
  \<open>fetch\<close> is the network: it either rejects (the request could not be completed) or
  resolves with a response, whatever its status. \<open>response.ok\<close> is true for the
  statuses 200 to 299. \<open>json\<close> is what \<open>response.json()\<close> settles to.
\<close>

record request =
  url :: string
  http_method :: string
  headers :: "(string \<times> string) list"

record 'a response =
  status :: nat
  json :: "js_error + 'a"

definition ok :: "'a response \<Rightarrow> bool" where
  "ok r = (200 \<le> status r \<and> status r \<le> 299)"

definition API_BASE_URL :: string where
  "API_BASE_URL = ''http://localhost:8000/api''"

text \<open>
  \<^verbatim>\<open>
  async rateDeveloper(username) {
      const response = await fetch(`${API_BASE_URL}/rate/${username}`, {
          method: 'POST',
          headers: { 'Content-Type': 'application/json' },
      });
      if (!response.ok) { throw new Error('Failed to rate developer'); }
      return response.json();
  }
  \<close>
\<close>

definition rateDeveloper ::
  "(request \<Rightarrow> js_error + 'a response) \<Rightarrow> string \<Rightarrow> js_error + 'a" where
  "rateDeveloper fetch usr =
     (case fetch \<lparr>url = API_BASE_URL @ ''/rate/'' @ usr, http_method = ''POST'',
                  headers = [(''Content-Type'', ''application/json'')]\<rparr> of
        Inl e \<Rightarrow> Inl e
      | Inr response \<Rightarrow>
          if \<not> ok response then Inl (Error ''Failed to rate developer'')
          else json response)"

text \<open>The two sibling calls have the same shape (a \<open>GET\<close> without headers).\<close>

definition getUserData ::
  "(request \<Rightarrow> js_error + 'a response) \<Rightarrow> string \<Rightarrow> js_error + 'a" where
  "getUserData fetch usr =
     (case fetch \<lparr>url = API_BASE_URL @ ''/user/'' @ usr @ ''/data'', http_method = ''GET'',
                  headers = []\<rparr> of
        Inl e \<Rightarrow> Inl e
      | Inr response \<Rightarrow>
          if \<not> ok response then Inl (Error ''Failed to fetch user data'')
          else json response)"

definition healthCheck :: "(request \<Rightarrow> js_error + 'a response) \<Rightarrow> js_error + 'a" where
  "healthCheck fetch =
     (case fetch \<lparr>url = API_BASE_URL @ ''/health'', http_method = ''GET'', headers = []\<rparr> of
        Inl e \<Rightarrow> Inl e
      | Inr response \<Rightarrow>
          if \<not> ok response then Inl (Error ''Health check failed'')
          else json response)"

subsection \<open>Observations and sample data\<close>

text \<open>
  The record a call of \<open>saveProfile\<close> stores: the argument with \<open>savedAt\<close> set to the
  clock value of the call.
\<close>

definition stamp :: "int \<times> rating \<Rightarrow> rating" where
  "stamp c = (snd c)\<lparr>savedAt := Some (fst c)\<rparr>"

text \<open>
  The username a call is about, the username an element of the parsed array shows
  (none when reading it throws), and the usernames \<open>getSavedProfiles\<close> lists (none when
  it does not return an array).
\<close>

definition call_username :: "int \<times> rating \<Rightarrow> string option" where
  "call_username c = profile_username (snd c)"

definition listed_username :: "json \<Rightarrow> string option" where
  "listed_username p = (case entry_username p of Inl e \<Rightarrow> None | Inr x \<Rightarrow> x)"

definition saved_usernames :: "local_storage \<Rightarrow> string option list" where
  "saved_usernames ls =
     (case getSavedProfiles ls of
        Inl e \<Rightarrow> []
      | Inr v \<Rightarrow> (case array_receiver v of Inl e \<Rightarrow> [] | Inr ps \<Rightarrow> map listed_username ps))"

definition working_storage :: local_storage where
  "working_storage = \<lparr>item = None, blocked = False, full = False\<rparr>"

definition rated :: "string \<Rightarrow> real \<Rightarrow> rating" where
  "rated u s = \<lparr>profile = Some \<lparr>username = Some u, name = None, avatar_url = None\<rparr>,
     final_score = s, tier = ''Advanced'', summary = [], savedAt = None\<rparr>"

definition anonymous :: "real \<Rightarrow> rating" where
  "anonymous s = \<lparr>profile = None, final_score = s, tier = ''Advanced'', summary = [], savedAt = None\<rparr>"

definition eleven_calls :: "(int \<times> rating) list" where
  "eleven_calls = [(1, rated ''a'' 10), (2, rated ''b'' 20), (3, rated ''c'' 30), (4, rated ''d'' 40),
     (5, rated ''e'' 50), (6, rated ''f'' 60), (7, rated ''g'' 70), (8, rated ''h'' 80),
     (9, rated ''i'' 90), (10, rated ''j'' 15), (11, rated ''k'' 25)]"

definition blank_calls :: "(int \<times> rating) list" where
  "blank_calls = [(1, rated ''a'' 10), (2, rated ''b'' 20), (3, rated ''c'' 30), (4, rated ''d'' 40),
     (5, rated ''e'' 50), (6, rated ''f'' 60), (7, rated ''g'' 70), (8, rated ''h'' 80),
     (9, rated ''i'' 90), (10, rated ''unknown'' 15), (11, rated [] 25)]"

text \<open>
  Storages for the examples: one that holds a given list of records, one that holds the
  string \<open>null\<close>, and three that fail.
\<close>

definition two_saved :: "rating list" where
  "two_saved = [(rated ''bob'' 40)\<lparr>savedAt := Some 2\<rparr>, (rated ''alice'' 80)\<lparr>savedAt := Some 1\<rparr>]"

definition storage_holding :: "rating list \<Rightarrow> local_storage" where
  "storage_holding rs =
     \<lparr>item = Some (Serialized (Array (map Object rs))), blocked = False, full = False\<rparr>"



definition full_storage :: local_storage where
  "full_storage =
     \<lparr>item = Some (Serialized (Array (map Object two_saved))), blocked = False, full = True\<rparr>"


text \<open>
  A host for the examples: ASCII lower-casing and comparison by character codes. Lists
  of results for the examples.
\<close>

fun compare_codes :: "string \<Rightarrow> string \<Rightarrow> real" where
  "compare_codes [] [] = 0"
| "compare_codes [] (b # bs) = - 1"
| "compare_codes (a # as) [] = 1"
| "compare_codes (a # as) (b # bs) =
     (if (of_char a :: nat) < of_char b then - 1
      else if (of_char b :: nat) < of_char a then 1
      else compare_codes as bs)"

definition ascii_lower :: "char \<Rightarrow> char" where
  "ascii_lower c =
     (if (65::nat) \<le> of_char c \<and> of_char c \<le> (90::nat) then char_of (of_char c + (32::nat)) else c)"

definition ascii_host :: host where
  "ascii_host = \<lparr>toLowerCase = map ascii_lower, localeCompare = compare_codes\<rparr>"

definition tiered :: "string \<Rightarrow> string \<Rightarrow> real \<Rightarrow> rating" where
  "tiered u t s = (rated u s)\<lparr>tier := t\<rparr>"

definition three_results :: "rating list" where
  "three_results = [rated ''a'' 90, rated ''b'' 60, rated ''c'' 75]"

definition mixed_tiers :: "rating list" where
  "mixed_tiers = [tiered ''a'' ''Elite'' 90, tiered ''b'' ''Beginner'' 20, tiered ''c'' ''Elite'' 95]"

text \<open>
  The request \<open>rateDeveloper\<close> sends, a server that answers every request with a given
  status, and a network that is down (\<open>fetch\<close> rejects with a \<open>TypeError\<close>).
\<close>

definition rate_request :: "string \<Rightarrow> request" where
  "rate_request usr = \<lparr>url = API_BASE_URL @ ''/rate/'' @ usr, http_method = ''POST'',
     headers = [(''Content-Type'', ''application/json'')]\<rparr>"

definition responds :: "nat \<Rightarrow> request \<Rightarrow> js_error + string response" where
  "responds code req = Inr \<lparr>status = code, json = Inr ''{}''\<rparr>"

definition offline :: "request \<Rightarrow> js_error + string response" where
  "offline req = Inl (TypeError ''Failed to fetch'')"

section \<open>Properties\<close>

subsection \<open>Reading, searching and writing\<close>

lemma getSavedProfiles_returns: "\<exists>v. getSavedProfiles ls = Inr v"
  by (auto simp: getSavedProfiles_def try_catch_def getItem_def
      split: sum.splits option.splits stored.splits)

lemma getSavedProfiles_written:
  "\<not> blocked ls \<Longrightarrow> getSavedProfiles (ls\<lparr>item := Some (Serialized v)\<rparr>) = Inr v"
  by (simp add: getSavedProfiles_def try_catch_def getItem_def)

lemma username_is_Object: "username_is u (Object r) = Inr (profile_username r = u)"
  by (simp add: username_is_def entry_username_def)

lemma username_is_other:
  "username_is u p = Inr b \<Longrightarrow> \<exists>c. username_is u' p = Inr c"
  by (auto simp: username_is_def split: sum.splits)

lemma findIndex_absent: "\<forall>x \<in> set xs. P x = Inr False \<Longrightarrow> findIndex P xs = Inr (- 1)"
  by (induction xs) simp_all

lemma findIndex_result:
  "findIndex P xs = Inr k \<Longrightarrow>
     (k = - 1 \<and> (\<forall>x \<in> set xs. P x = Inr False)) \<or>
     (0 \<le> k \<and> nat k < length xs \<and> P (xs ! nat k) = Inr True \<and>
        (\<forall>j < nat k. P (xs ! j) = Inr False))"
proof (induction xs arbitrary: k)
  case Nil
  then show ?case by simp
next
  case (Cons x xs)
  from Cons.prems obtain b where b: "P x = Inr b"
    by (auto split: sum.splits)
  show ?case
  proof (cases b)
    case True
    with b Cons.prems show ?thesis by simp
  next
    case False
    with b Cons.prems obtain i where i: "findIndex P xs = Inr i"
      and k: "k = (if i < 0 then - 1 else i + 1)"
      by (auto split: sum.splits)
    from Cons.IH [OF i] show ?thesis
    proof
      assume "i = - 1 \<and> (\<forall>x \<in> set xs. P x = Inr False)"
      with k b False show ?thesis by simp
    next
      assume found: "0 \<le> i \<and> nat i < length xs \<and> P (xs ! nat i) = Inr True \<and>
        (\<forall>j < nat i. P (xs ! j) = Inr False)"
      then have k': "k = i + 1"
        using k by simp
      from found have "0 \<le> i" by blast
      then have suc: "nat (i + 1) = Suc (nat i)"
        by arith
      from found b False show ?thesis
        unfolding k' suc by (auto simp: less_Suc_eq_0_disj)
    qed
  qed
qed

lemma findIndex_found:
  "\<forall>x \<in> set xs. \<exists>b. P x = Inr b \<Longrightarrow> \<exists>x \<in> set xs. P x = Inr True \<Longrightarrow>
     \<exists>k. 0 \<le> k \<and> findIndex P xs = Inr k"
proof (induction xs)
  case Nil
  then show ?case by simp
next
  case (Cons x xs)
  from Cons.prems(1) obtain b where b: "P x = Inr b" by auto
  show ?case
  proof (cases b)
    case True
    with b show ?thesis by simp
  next
    case False
    with b Cons.prems have "\<exists>k. 0 \<le> k \<and> findIndex P xs = Inr k"
      by (intro Cons.IH) auto
    then obtain k where "0 \<le> k" "findIndex P xs = Inr k" by blast
    with b False show ?thesis by simp
  qed
qed

lemma some_absent: "\<forall>x \<in> set xs. P x = Inr False \<Longrightarrow> some P xs = Inr False"
  by (induction xs) simp_all

lemma some_at:
  "i < length xs \<Longrightarrow> P (xs ! i) = Inr True \<Longrightarrow> \<forall>j < i. \<exists>b. P (xs ! j) = Inr b \<Longrightarrow>
     some P xs = Inr True"
proof (induction xs arbitrary: i)
  case Nil
  then show ?case by simp
next
  case (Cons x xs)
  show ?case
  proof (cases i)
    case 0
    with Cons.prems show ?thesis by simp
  next
    case (Suc n)
    then have "0 < i" by simp
    with Cons.prems(3) have "\<exists>b. P ((x # xs) ! 0) = Inr b" by blast
    then obtain b where b: "P x = Inr b" by auto
    have "some P xs = Inr True"
    proof (rule Cons.IH [of n])
      show "n < length xs" using Cons.prems(1) Suc by simp
      show "P (xs ! n) = Inr True" using Cons.prems(2) Suc by simp
      show "\<forall>j < n. \<exists>b. P (xs ! j) = Inr b"
      proof (intro allI impI)
        fix j assume "j < n"
        then have "Suc j < i" using Suc by simp
        with Cons.prems(3) have "\<exists>b. P ((x # xs) ! Suc j) = Inr b" by blast
        then show "\<exists>b. P (xs ! j) = Inr b" by simp
      qed
    qed
    with b show ?thesis by simp
  qed
qed

lemma array_filter_result:
  "array_filter P xs = Inr ys \<Longrightarrow>
     (\<forall>x \<in> set xs. \<exists>b. P x = Inr b) \<and> ys = filter (\<lambda>x. P x = Inr True) xs"
  by (induction xs arbitrary: ys) (auto split: sum.splits if_splits)

lemma array_filter_total:
  "\<forall>x \<in> set xs. \<exists>b. P x = Inr b \<Longrightarrow>
     array_filter P xs = Inr (filter (\<lambda>x. P x = Inr True) xs)"
  by (induction xs) auto

lemma saveProfile_working:
  assumes "\<not> blocked ls" "\<not> full ls" "getSavedProfiles ls = Inr (Array ps)"
    and "findIndex (username_is (Some (or_else (profile_username pd) ''unknown''))) ps = Inr k"
  shows "saveProfile ls now pd =
     Inr (True, ls\<lparr>item := Some (Serialized (Array
       (if 0 \<le> k then ps[nat k := Object (pd\<lparr>savedAt := Some now\<rparr>)]
        else if 10 < length (Object (pd\<lparr>savedAt := Some now\<rparr>) # ps)
             then butlast (Object (pd\<lparr>savedAt := Some now\<rparr>) # ps)
             else Object (pd\<lparr>savedAt := Some now\<rparr>) # ps)))\<rparr>)"
  using assms
  by (simp add: saveProfile_def try_catch_def setItem_def Let_def array_receiver_def)

lemma saveProfile_unfolded:
  assumes "getSavedProfiles ls = Inr v"
  shows "saveProfile ls now pd =
    (case array_receiver v of
       Inl e \<Rightarrow> Inr (False, ls)
     | Inr ps \<Rightarrow>
        (case findIndex (username_is (Some (or_else (profile_username pd) ''unknown''))) ps of
           Inl e \<Rightarrow> Inr (False, ls)
         | Inr k \<Rightarrow>
             (case setItem ls (Array
                (if 0 \<le> k then ps[nat k := Object (pd\<lparr>savedAt := Some now\<rparr>)]
                 else if 10 < length (Object (pd\<lparr>savedAt := Some now\<rparr>) # ps)
                      then butlast (Object (pd\<lparr>savedAt := Some now\<rparr>) # ps)
                      else Object (pd\<lparr>savedAt := Some now\<rparr>) # ps)) of
                Inl e \<Rightarrow> Inr (False, ls)
              | Inr l \<Rightarrow> Inr (True, l))))"
  unfolding saveProfile_def try_catch_def Let_def assms
  by (simp split: sum.split)

lemma array_receiver_Inr: "array_receiver v = Inr ps \<Longrightarrow> v = Array ps"
  by (cases v) (simp_all add: array_receiver_def)

lemma saveProfile_success:
  assumes "saveProfile ls now pd = Inr (True, ls')"
  shows "\<not> blocked ls \<and> \<not> full ls \<and>
    (\<exists>ps k. getSavedProfiles ls = Inr (Array ps) \<and>
       findIndex (username_is (Some (or_else (profile_username pd) ''unknown''))) ps = Inr k)"
proof -
  obtain v where v: "getSavedProfiles ls = Inr v"
    using getSavedProfiles_returns by blast
  note unfolded = assms [unfolded saveProfile_unfolded [OF v]]
  from unfolded obtain ps where ps: "array_receiver v = Inr ps"
    by (cases "array_receiver v") simp_all
  then have arr: "v = Array ps" by (rule array_receiver_Inr)
  from unfolded ps obtain k where
    k: "findIndex (username_is (Some (or_else (profile_username pd) ''unknown''))) ps = Inr k"
    by (cases "findIndex (username_is (Some (or_else (profile_username pd) ''unknown''))) ps")
      simp_all
  from unfolded ps k have "\<not> blocked ls \<and> \<not> full ls"
    by (simp add: setItem_def split: if_splits)
  with v arr k show ?thesis by blast
qed

lemma take_append_take: "take n (xs @ take n ys) = take n (xs @ ys)"
  by (simp add: min_def)

lemma saveProfiles_fresh:
  assumes "\<not> blocked ls" "\<not> full ls" "getSavedProfiles ls = Inr (Array (map Object rs))"
    and "length rs \<le> 10"
    and "\<forall>c \<in> set calls. \<exists>u. profile_username (snd c) = Some u \<and> u \<noteq> [] \<and>
           (\<forall>r \<in> set rs. profile_username r \<noteq> Some u)"
    and "distinct (map (\<lambda>c. profile_username (snd c)) calls)"
  shows "getSavedProfiles (saveProfiles ls calls) =
    Inr (Array (map Object (take 10 (rev (map stamp calls) @ rs))))"
  using assms
proof (induction calls arbitrary: ls rs)
  case Nil
  then show ?case by simp
next
  case (Cons c cs)
  obtain now pd where c: "c = (now, pd)" by (cases c)
  from Cons.prems(5) c obtain u where u: "profile_username pd = Some u" "u \<noteq> []"
    "\<forall>r \<in> set rs. profile_username r \<noteq> Some u" by auto
  let ?x = "pd\<lparr>savedAt := Some now\<rparr>"
  let ?rs' = "take 10 (?x # rs)"
  let ?ls' = "ls\<lparr>item := Some (Serialized (Array (map Object ?rs')))\<rparr>"
  from u have key: "or_else (profile_username pd) ''unknown'' = u"
    by (simp add: or_else_def)
  from u(3) have absent: "findIndex (username_is (Some u)) (map Object rs) = Inr (- 1)"
    by (intro findIndex_absent) (auto simp: username_is_Object)
  have shrink: "(if 10 < length (Object ?x # map Object rs)
      then butlast (Object ?x # map Object rs) else Object ?x # map Object rs) = map Object ?rs'"
  proof (cases "length rs = 10")
    case True
    then show ?thesis by (simp add: butlast_conv_take take_map)
  next
    case False
    with Cons.prems(4) show ?thesis by simp
  qed
  have step: "saveProfile ls now pd = Inr (True, ?ls')"
    using saveProfile_working [OF Cons.prems(1-3), of pd "- 1" now] absent shrink
    unfolding key by simp
  have ux: "profile_username ?x = Some u"
    using u(1) by (simp add: profile_username_def)
  have fresh: "\<forall>c' \<in> set cs. \<exists>v. profile_username (snd c') = Some v \<and> v \<noteq> [] \<and>
           (\<forall>r \<in> set ?rs'. profile_username r \<noteq> Some v)"
  proof
    fix c' assume c': "c' \<in> set cs"
    with Cons.prems(5) obtain v where v: "profile_username (snd c') = Some v" "v \<noteq> []"
      "\<forall>r \<in> set rs. profile_username r \<noteq> Some v" by auto
    from Cons.prems(6) c c' v(1) u(1) have "v \<noteq> u" by force
    have "\<forall>r \<in> set ?rs'. profile_username r \<noteq> Some v"
    proof
      fix r assume "r \<in> set ?rs'"
      then have "r \<in> set (?x # rs)" by (rule in_set_takeD)
      with v(3) ux \<open>v \<noteq> u\<close> show "profile_username r \<noteq> Some v" by auto
    qed
    with v show "\<exists>v. profile_username (snd c') = Some v \<and> v \<noteq> [] \<and>
           (\<forall>r \<in> set ?rs'. profile_username r \<noteq> Some v)" by blast
  qed
  have ih: "getSavedProfiles (saveProfiles ?ls' cs) =
      Inr (Array (map Object (take 10 (rev (map stamp cs) @ ?rs'))))"
  proof (rule Cons.IH)
    show "\<not> blocked ?ls'" using Cons.prems(1) by simp
    show "\<not> full ?ls'" using Cons.prems(2) by simp
    show "getSavedProfiles ?ls' = Inr (Array (map Object ?rs'))"
      using Cons.prems(1) by (rule getSavedProfiles_written)
    show "length ?rs' \<le> 10" by simp
    show "\<forall>c' \<in> set cs. \<exists>v. profile_username (snd c') = Some v \<and> v \<noteq> [] \<and>
           (\<forall>r \<in> set ?rs'. profile_username r \<noteq> Some v)" by (rule fresh)
    show "distinct (map (\<lambda>c. profile_username (snd c)) cs)" using Cons.prems(6) by simp
  qed
  have "saveProfiles ls (c # cs) = saveProfiles ?ls' cs"
    by (simp add: c step storage_after_def)
  moreover have "take 10 (rev (map stamp cs) @ ?rs') = take 10 (rev (map stamp cs) @ (?x # rs))"
    by (rule take_append_take)
  moreover have "rev (map stamp cs) @ (?x # rs) = rev (map stamp (c # cs)) @ rs"
    by (simp add: c stamp_def)
  ultimately show ?case using ih by simp
qed

subsection \<open>Capacity and eviction\<close>

lemma saveProfiles_take_hyps:
  assumes "\<forall>c \<in> set calls. \<exists>u. call_username c = Some u \<and> u \<noteq> []"
    and "distinct (map call_username calls)"
  shows "(\<forall>c \<in> set (take k calls). \<exists>u. call_username c = Some u \<and> u \<noteq> []) \<and>
    distinct (map call_username (take k calls))"
proof -
  have "distinct (take k (map call_username calls))"
    using assms(2) by (rule distinct_take)
  then have "distinct (map call_username (take k calls))"
    by (simp add: take_map)
  moreover have "\<forall>c \<in> set (take k calls). \<exists>u. call_username c = Some u \<and> u \<noteq> []"
    using assms(1) by (meson in_set_takeD)
  ultimately show ?thesis by blast
qed

lemma saveProfiles_from_empty:
  assumes "\<not> blocked ls" "\<not> full ls" "getSavedProfiles ls = Inr (Array [])"
    and "\<forall>c \<in> set calls. \<exists>u. call_username c = Some u \<and> u \<noteq> []"
    and "distinct (map call_username calls)"
  shows "getSavedProfiles (saveProfiles ls calls) =
    Inr (Array (map Object (take 10 (rev (map stamp calls)))))"
proof -
  have d: "distinct (map (\<lambda>c. profile_username (snd c)) calls)"
    using assms(5) by (simp add: call_username_def [abs_def])
  have f: "\<forall>c \<in> set calls. \<exists>u. profile_username (snd c) = Some u \<and> u \<noteq> [] \<and>
           (\<forall>r \<in> set []. profile_username r \<noteq> Some u)"
    using assms(4) by (simp add: call_username_def)
  have e: "getSavedProfiles ls = Inr (Array (map Object []))"
    using assms(3) by simp
  from saveProfiles_fresh [OF assms(1,2) e _ f d] show ?thesis by simp
qed

lemma saved_usernames_Objects:
  "getSavedProfiles ls = Inr (Array (map Object rs)) \<Longrightarrow>
     saved_usernames ls = map profile_username rs"
  by (simp add: saved_usernames_def array_receiver_def listed_username_def entry_username_def
      comp_def)

text \<open>
  Claim C1, as amended. On a storage that works and lists nothing, a run of more than ten
  \<open>saveProfile\<close> calls whose usernames are present, non-empty and pairwise distinct leaves
  exactly the ten most recently saved records, most recent first. After every prefix of
  the run the list is the (at most ten) most recent records of that prefix, so the oldest
  entry is the one each further save drops, and the list never has more than ten entries.
\<close>

theorem saveProfiles_keeps_most_recent:
  assumes "\<not> blocked ls" "\<not> full ls" "getSavedProfiles ls = Inr (Array [])"
    and "\<forall>c \<in> set calls. \<exists>u. call_username c = Some u \<and> u \<noteq> []"
    and "distinct (map call_username calls)"
    and "10 < length calls"
  shows "getSavedProfiles (saveProfiles ls calls) =
      Inr (Array (map Object (take 10 (rev (map stamp calls)))))
    \<and> saved_usernames (saveProfiles ls calls) = take 10 (rev (map call_username calls))
    \<and> length (saved_usernames (saveProfiles ls calls)) = 10
    \<and> (\<forall>k. getSavedProfiles (saveProfiles ls (take k calls)) =
              Inr (Array (map Object (take 10 (rev (map stamp (take k calls)))))) \<and>
            length (saved_usernames (saveProfiles ls (take k calls))) \<le> 10)"
proof -
  have final: "getSavedProfiles (saveProfiles ls calls) =
      Inr (Array (map Object (take 10 (rev (map stamp calls)))))"
    using assms(1-5) by (rule saveProfiles_from_empty)
  have names: "map profile_username (map stamp calls) = map call_username calls"
    by (simp add: stamp_def call_username_def profile_username_def)
  have usernames: "saved_usernames (saveProfiles ls calls) = take 10 (rev (map call_username calls))"
  proof -
    have "saved_usernames (saveProfiles ls calls) =
        map profile_username (take 10 (rev (map stamp calls)))"
      using final by (rule saved_usernames_Objects)
    also have "\<dots> = take 10 (rev (map profile_username (map stamp calls)))"
      by (simp only: take_map rev_map)
    finally show ?thesis by (simp only: names)
  qed
  have size: "length (saved_usernames (saveProfiles ls calls)) = 10"
    using assms(6) by (simp add: usernames)
  have bound: "getSavedProfiles (saveProfiles ls (take k calls)) =
        Inr (Array (map Object (take 10 (rev (map stamp (take k calls)))))) \<and>
      length (saved_usernames (saveProfiles ls (take k calls))) \<le> 10" for k
  proof -
    from saveProfiles_take_hyps [OF assms(4,5), of k]
    have g: "getSavedProfiles (saveProfiles ls (take k calls)) =
        Inr (Array (map Object (take 10 (rev (map stamp (take k calls))))))"
      using assms(1-3) by (intro saveProfiles_from_empty) auto
    from saved_usernames_Objects [OF g] g show ?thesis by simp
  qed
  from final usernames size bound show ?thesis by blast
qed

lemma working_storage_reads:
  "\<not> blocked working_storage \<and> \<not> full working_storage \<and>
   getSavedProfiles working_storage = Inr (Array [])"
  by (simp add: working_storage_def getSavedProfiles_def getItem_def try_catch_def)

lemma eleven_calls_usernames: "map call_username eleven_calls =
  [Some ''a'', Some ''b'', Some ''c'', Some ''d'', Some ''e'', Some ''f'', Some ''g'', Some ''h'',
   Some ''i'', Some ''j'', Some ''k'']"
  by (simp add: eleven_calls_def call_username_def rated_def profile_username_def)

text \<open>Eleven saves \<open>a\<close> to \<open>k\<close>: \<open>a\<close> is evicted.\<close>

theorem saveProfiles_keeps_most_recent_witness:
  "10 < length eleven_calls \<and>
   saved_usernames (saveProfiles working_storage eleven_calls) =
     [Some ''k'', Some ''j'', Some ''i'', Some ''h'', Some ''g'', Some ''f'', Some ''e'',
      Some ''d'', Some ''c'', Some ''b'']"
proof -
  have len: "10 < length eleven_calls" by (simp add: eleven_calls_def)
  have named: "\<forall>c \<in> set eleven_calls. \<exists>u. call_username c = Some u \<and> u \<noteq> []"
    by (simp add: eleven_calls_def call_username_def rated_def profile_username_def)
  have dist: "distinct (map call_username eleven_calls)"
    unfolding eleven_calls_usernames by simp
  from saveProfiles_keeps_most_recent [of working_storage eleven_calls] working_storage_reads named dist len
  have "saved_usernames (saveProfiles working_storage eleven_calls) =
      take 10 (rev (map call_username eleven_calls))" by blast
  then show ?thesis using len unfolding eleven_calls_usernames by simp
qed

text \<open>
  Claim C1 as stated fails when one of the distinct usernames is the empty string: it is
  falsy, so the lookup key is \<open>unknown\<close>, and the save overwrites the entry of the user
  called \<open>unknown\<close> instead of evicting the oldest entry.
\<close>

theorem saveProfiles_eviction_counterexample:
  "distinct (map call_username blank_calls) \<and> 10 < length blank_calls \<and>
   saved_usernames (saveProfiles working_storage blank_calls) =
     [Some [], Some ''i'', Some ''h'', Some ''g'', Some ''f'', Some ''e'',
      Some ''d'', Some ''c'', Some ''b'', Some ''a''] \<and>
   take 10 (rev (map call_username blank_calls)) =
     [Some [], Some ''unknown'', Some ''i'', Some ''h'', Some ''g'', Some ''f'', Some ''e'',
      Some ''d'', Some ''c'', Some ''b'']"
  by code_simp

subsection \<open>Update in place\<close>

lemma storage_holding_reads:
  "\<not> blocked (storage_holding rs) \<and> \<not> full (storage_holding rs) \<and>
   getSavedProfiles (storage_holding rs) = Inr (Array (map Object rs))"
  by (simp add: storage_holding_def getSavedProfiles_def getItem_def try_catch_def)

text \<open>
  For a non-empty username the replacement is in place: on a working storage that holds
  records, saving a result whose username is listed overwrites the first entry with that
  username at its index, and the list keeps its length.
\<close>

lemma saveProfile_replaces_in_place:
  assumes "\<not> blocked ls" "\<not> full ls" "getSavedProfiles ls = Inr (Array (map Object rs))"
    and "profile_username profileData = Some u" "u \<noteq> []"
    and "\<exists>r \<in> set rs. profile_username r = Some u"
  shows "\<exists>i ls'. i < length rs \<and> profile_username (rs ! i) = Some u \<and>
      (\<forall>j < i. profile_username (rs ! j) \<noteq> Some u) \<and>
      saveProfile ls now profileData = Inr (True, ls') \<and>
      getSavedProfiles ls' = Inr (Array (map Object (rs[i := profileData\<lparr>savedAt := Some now\<rparr>]))) \<and>
      length (rs[i := profileData\<lparr>savedAt := Some now\<rparr>]) = length rs"
proof -
  let ?P = "username_is (Some u)"
  let ?x = "profileData\<lparr>savedAt := Some now\<rparr>"
  from assms(4,5) have key: "or_else (profile_username profileData) ''unknown'' = u"
    by (simp add: or_else_def)
  have "\<exists>k. 0 \<le> k \<and> findIndex ?P (map Object rs) = Inr k"
    using assms(6) by (intro findIndex_found) (auto simp: username_is_Object)
  then obtain k where found: "0 \<le> k" and k: "findIndex ?P (map Object rs) = Inr k"
    by blast
  let ?ls' = "ls\<lparr>item := Some (Serialized (Array ((map Object rs)[nat k := Object ?x])))\<rparr>"
  from findIndex_result [OF k] found
  have pos: "nat k < length rs" "profile_username (rs ! nat k) = Some u"
    "\<forall>j < nat k. profile_username (rs ! j) \<noteq> Some u"
    by (auto simp: username_is_Object)
  have step: "saveProfile ls now profileData = Inr (True, ?ls')"
    using saveProfile_working [OF assms(1-3), of profileData k now] k found
    unfolding key by simp
  have "getSavedProfiles ?ls' = Inr (Array ((map Object rs)[nat k := Object ?x]))"
    using assms(1) by (rule getSavedProfiles_written)
  then have reads: "getSavedProfiles ?ls' = Inr (Array (map Object (rs[nat k := ?x])))"
    by (simp add: map_update)
  from pos step reads show ?thesis
    by (intro exI [of _ "nat k"] exI [of _ ?ls']) simp
qed

text \<open>
  Claim C2. A result with the empty username is listed; saving a result with the empty
  username again looks for \<open>unknown\<close>, finds nothing and adds a second entry with the
  same username instead of replacing the first in place. The stored username is compared
  as it is, while the username of the argument goes through the \<open>unknown\<close> fallback.
\<close>

theorem saveProfile_blank_username_twice:
  "saved_usernames (storage_holding [(rated [] 40)\<lparr>savedAt := Some 1\<rparr>]) = [Some []] \<and>
   profile_username (rated [] 45) = Some [] \<and>
   getSavedProfiles (storage_after (storage_holding [(rated [] 40)\<lparr>savedAt := Some 1\<rparr>])
      (saveProfile (storage_holding [(rated [] 40)\<lparr>savedAt := Some 1\<rparr>]) 2 (rated [] 45))) =
     Inr (Array [Object ((rated [] 45)\<lparr>savedAt := Some 2\<rparr>),
                 Object ((rated [] 40)\<lparr>savedAt := Some 1\<rparr>)])"
  by code_simp

text \<open>
  Claim C10. Two results without a username, saved one after the other on an empty
  storage, are both listed: the fallback key \<open>unknown\<close> is used for the lookup only,
  and the stored entries, which still have no username, never match it.
\<close>

theorem saveProfile_missing_username_twice:
  "getSavedProfiles (saveProfiles working_storage [(1, anonymous 50), (2, anonymous 70)]) =
     Inr (Array [Object ((anonymous 70)\<lparr>savedAt := Some 2\<rparr>),
                 Object ((anonymous 50)\<lparr>savedAt := Some 1\<rparr>)])"
  by code_simp

subsection \<open>Membership after save and remove\<close>

lemma removeProfile_unfolded:
  assumes "getSavedProfiles ls = Inr v"
  shows "removeProfile ls u =
    (case array_receiver v of
       Inl e \<Rightarrow> Inr (False, ls)
     | Inr ps \<Rightarrow>
        (case array_filter (username_is_not u) ps of
           Inl e \<Rightarrow> Inr (False, ls)
         | Inr filtered \<Rightarrow>
             (case setItem ls (Array filtered) of
                Inl e \<Rightarrow> Inr (False, ls)
              | Inr l \<Rightarrow> Inr (True, l))))"
  unfolding removeProfile_def try_catch_def assms
  by (simp split: sum.split)

lemma username_is_not_defined:
  "p \<noteq> Null \<Longrightarrow> username_is_not u p = Inr (entry_username p \<noteq> Inr u)"
  by (cases p) (simp_all add: username_is_not_def entry_username_def)

lemma username_is_not_True:
  "username_is_not u p = Inr True \<Longrightarrow> username_is u p = Inr False"
  by (auto simp: username_is_not_def username_is_def split: sum.splits)

lemma removeProfile_working:
  assumes "\<not> blocked ls" "\<not> full ls" "getSavedProfiles ls = Inr (Array ps)" "Null \<notin> set ps"
  shows "removeProfile ls u =
     Inr (True, ls\<lparr>item := Some (Serialized (Array (filter (\<lambda>p. entry_username p \<noteq> Inr u) ps)))\<rparr>)"
proof -
  have not_null: "p \<noteq> Null" if "p \<in> set ps" for p
    using that assms(4) by blast
  have defined: "\<forall>p \<in> set ps. \<exists>b. username_is_not u p = Inr b"
    by (simp add: username_is_not_defined not_null)
  have same: "filter (\<lambda>p. username_is_not u p = Inr True) ps =
      filter (\<lambda>p. entry_username p \<noteq> Inr u) ps"
  proof (rule filter_cong [OF refl])
    fix p assume "p \<in> set ps"
    then have "p \<noteq> Null" by (rule not_null)
    then show "(username_is_not u p = Inr True) = (entry_username p \<noteq> Inr u)"
      by (simp add: username_is_not_defined)
  qed
  have kept: "array_filter (username_is_not u) ps =
      Inr (filter (\<lambda>p. entry_username p \<noteq> Inr u) ps)"
    using array_filter_total [OF defined] by (simp only: same)
  have receiver: "array_receiver (Array ps) = Inr ps"
    by (simp add: array_receiver_def)
  have writes: "setItem ls x = Inr (ls\<lparr>item := Some (Serialized x)\<rparr>)" for x
    using assms(1,2) by (simp add: setItem_def)
  show ?thesis
    by (simp add: removeProfile_unfolded [OF assms(3)] receiver kept writes)
qed

lemma removeProfile_success:
  assumes "removeProfile ls u = Inr (True, ls')"
  shows "\<not> blocked ls \<and>
    (\<exists>ps ys. getSavedProfiles ls = Inr (Array ps) \<and>
       array_filter (username_is_not u) ps = Inr ys \<and>
       ls' = ls\<lparr>item := Some (Serialized (Array ys))\<rparr>)"
proof -
  obtain v where v: "getSavedProfiles ls = Inr v"
    using getSavedProfiles_returns by blast
  note unfolded = assms [unfolded removeProfile_unfolded [OF v]]
  from unfolded obtain ps where ps: "array_receiver v = Inr ps"
    by (cases "array_receiver v") simp_all
  then have arr: "v = Array ps" by (rule array_receiver_Inr)
  from unfolded ps obtain ys where ys: "array_filter (username_is_not u) ps = Inr ys"
    by (cases "array_filter (username_is_not u) ps") simp_all
  from unfolded ps ys have "\<not> blocked ls \<and> ls' = ls\<lparr>item := Some (Serialized (Array ys))\<rparr>"
    by (auto simp: setItem_def split: if_splits)
  with v arr ys show ?thesis by blast
qed

lemma saved_after_save:
  assumes "saveProfile ls now pd = Inr (True, ls')" "profile_username pd = Some u"
  shows "isProfileSaved ls' (Some u) = Inr True"
proof -
  let ?key = "Some (or_else (profile_username pd) ''unknown'')"
  let ?x = "Object (pd\<lparr>savedAt := Some now\<rparr>)"
  from saveProfile_success [OF assms(1)] obtain ps k where w: "\<not> blocked ls" "\<not> full ls"
    and ps: "getSavedProfiles ls = Inr (Array ps)"
    and k: "findIndex (username_is ?key) ps = Inr k"
    by blast
  let ?new = "if 0 \<le> k then ps[nat k := ?x]
           else if 10 < length (?x # ps) then butlast (?x # ps) else ?x # ps"
  from saveProfile_working [OF w ps k, of now] assms(1)
  have ls': "ls' = ls\<lparr>item := Some (Serialized (Array ?new))\<rparr>"
    by simp
  have reads: "getSavedProfiles ls' = Inr (Array ?new)"
    unfolding ls' using w(1) by (rule getSavedProfiles_written)
  have ux: "username_is (Some u) ?x = Inr True"
    using assms(2) by (simp add: username_is_Object profile_username_def)
  have "some (username_is (Some u)) ?new = Inr True"
  proof (cases "0 \<le> k")
    case True
    with findIndex_result [OF k] have pos: "nat k < length ps"
      and before: "\<forall>j < nat k. username_is ?key (ps ! j) = Inr False"
      by auto
    have "some (username_is (Some u)) (ps[nat k := ?x]) = Inr True"
    proof (rule some_at [of "nat k"])
      show "nat k < length (ps[nat k := ?x])" using pos by simp
      show "username_is (Some u) (ps[nat k := ?x] ! nat k) = Inr True"
        using pos ux by simp
      show "\<forall>j < nat k. \<exists>b. username_is (Some u) (ps[nat k := ?x] ! j) = Inr b"
      proof (intro allI impI)
        fix j assume j: "j < nat k"
        with before have "username_is ?key (ps ! j) = Inr False" by blast
        then have "\<exists>b. username_is (Some u) (ps ! j) = Inr b"
          by (rule username_is_other)
        with j show "\<exists>b. username_is (Some u) (ps[nat k := ?x] ! j) = Inr b"
          by simp
      qed
    qed
    with True show ?thesis by simp
  next
    case False
    have "\<exists>ys. ?new = ?x # ys"
      using False by (cases ps rule: rev_cases) auto
    then obtain ys where "?new = ?x # ys" by blast
    then show ?thesis using ux by simp
  qed
  then show ?thesis
    by (simp add: isProfileSaved_def reads array_receiver_def)
qed

lemma removed_after_remove:
  assumes "removeProfile ls u = Inr (True, ls')"
  shows "isProfileSaved ls' u = Inr False"
proof -
  from removeProfile_success [OF assms] obtain ps ys where w: "\<not> blocked ls"
    and ys: "array_filter (username_is_not u) ps = Inr ys"
    and ls': "ls' = ls\<lparr>item := Some (Serialized (Array ys))\<rparr>"
    by blast
  have reads: "getSavedProfiles ls' = Inr (Array ys)"
    unfolding ls' using w by (rule getSavedProfiles_written)
  from array_filter_result [OF ys]
  have "ys = filter (\<lambda>p. username_is_not u p = Inr True) ps" by blast
  then have "\<forall>y \<in> set ys. username_is u y = Inr False"
    by (auto intro: username_is_not_True)
  then have "some (username_is u) ys = Inr False"
    by (rule some_absent)
  then show ?thesis
    by (simp add: isProfileSaved_def reads array_receiver_def)
qed

text \<open>
  Claim C9, as amended. After a \<open>saveProfile\<close> that returned \<open>true\<close> for a result with
  username \<open>u\<close>, \<open>isProfileSaved u\<close> is \<open>true\<close>; after a \<open>removeProfile u\<close> that returned
  \<open>true\<close> it is \<open>false\<close>. On a storage that can be read and written and holds an array
  without \<open>null\<close> elements, \<open>removeProfile u\<close> returns \<open>true\<close> and leaves exactly the
  entries whose username is not \<open>u\<close>, which is the whole list when \<open>u\<close> has no entry.
\<close>

theorem isProfileSaved_after_save_and_remove:
  "(saveProfile ls now profileData = Inr (True, ls1) \<and> profile_username profileData = Some u
      \<longrightarrow> isProfileSaved ls1 (Some u) = Inr True)
   \<and> (removeProfile ls (Some u) = Inr (True, ls2) \<longrightarrow> isProfileSaved ls2 (Some u) = Inr False)
   \<and> (\<not> blocked ls \<and> \<not> full ls \<and> getSavedProfiles ls = Inr (Array ps) \<and> Null \<notin> set ps \<longrightarrow>
        (\<exists>ls3. removeProfile ls (Some u) = Inr (True, ls3) \<and>
           getSavedProfiles ls3 =
             Inr (Array (filter (\<lambda>p. entry_username p \<noteq> Inr (Some u)) ps)) \<and>
           ((\<forall>p \<in> set ps. entry_username p \<noteq> Inr (Some u)) \<longrightarrow>
              getSavedProfiles ls3 = Inr (Array ps))))"
proof (intro conjI impI)
  assume "saveProfile ls now profileData = Inr (True, ls1) \<and> profile_username profileData = Some u"
  then show "isProfileSaved ls1 (Some u) = Inr True"
    using saved_after_save by blast
next
  assume "removeProfile ls (Some u) = Inr (True, ls2)"
  then show "isProfileSaved ls2 (Some u) = Inr False"
    by (rule removed_after_remove)
next
  assume w: "\<not> blocked ls \<and> \<not> full ls \<and> getSavedProfiles ls = Inr (Array ps) \<and> Null \<notin> set ps"
  let ?kept = "filter (\<lambda>p. entry_username p \<noteq> Inr (Some u)) ps"
  let ?ls3 = "ls\<lparr>item := Some (Serialized (Array ?kept))\<rparr>"
  from w have r: "removeProfile ls (Some u) = Inr (True, ?ls3)"
    by (simp add: removeProfile_working)
  from w have g: "getSavedProfiles ?ls3 = Inr (Array ?kept)"
    by (simp add: getSavedProfiles_written)
  have "(\<forall>p \<in> set ps. entry_username p \<noteq> Inr (Some u)) \<longrightarrow> getSavedProfiles ?ls3 = Inr (Array ps)"
  proof
    assume "\<forall>p \<in> set ps. entry_username p \<noteq> Inr (Some u)"
    then have "?kept = ps" by (simp add: filter_id_conv)
    with g show "getSavedProfiles ?ls3 = Inr (Array ps)" by simp
  qed
  with r g show "\<exists>ls3. removeProfile ls (Some u) = Inr (True, ls3) \<and>
           getSavedProfiles ls3 =
             Inr (Array (filter (\<lambda>p. entry_username p \<noteq> Inr (Some u)) ps)) \<and>
           ((\<forall>p \<in> set ps. entry_username p \<noteq> Inr (Some u)) \<longrightarrow>
              getSavedProfiles ls3 = Inr (Array ps))"
    by blast
qed

theorem isProfileSaved_after_save_and_remove_witness:
  "isProfileSaved (storage_after working_storage (saveProfile working_storage 1 (rated ''alice'' 80)))
      (Some ''alice'') = Inr True
   \<and> isProfileSaved (storage_after (storage_holding two_saved)
        (removeProfile (storage_holding two_saved) (Some ''alice''))) (Some ''alice'') = Inr False
   \<and> (\<exists>ls3. removeProfile (storage_holding two_saved) (Some ''carol'') = Inr (True, ls3) \<and>
        getSavedProfiles ls3 = Inr (Array (map Object two_saved)))"
proof -
  let ?s = "storage_after working_storage (saveProfile working_storage 1 (rated ''alice'' 80))"
  let ?r = "storage_after (storage_holding two_saved)
        (removeProfile (storage_holding two_saved) (Some ''alice''))"
  have s: "saveProfile working_storage 1 (rated ''alice'' 80) = Inr (True, ?s)"
    by code_simp
  have u: "profile_username (rated ''alice'' 80) = Some ''alice''"
    by (simp add: rated_def profile_username_def)
  have r: "removeProfile (storage_holding two_saved) (Some ''alice'') = Inr (True, ?r)"
    by code_simp
  have n: "Null \<notin> set (map Object two_saved)"
    by auto
  have c: "\<forall>p \<in> set (map Object two_saved). entry_username p \<noteq> Inr (Some ''carol'')"
    by (simp add: two_saved_def rated_def profile_username_def entry_username_def)
  from isProfileSaved_after_save_and_remove
      [of working_storage 1 "rated ''alice'' 80" ?s "''alice''"] s u
  have "isProfileSaved ?s (Some ''alice'') = Inr True" by blast
  moreover from isProfileSaved_after_save_and_remove
      [of "storage_holding two_saved" _ _ _ "''alice''" ?r] r
  have "isProfileSaved ?r (Some ''alice'') = Inr False" by blast
  moreover from isProfileSaved_after_save_and_remove
      [of "storage_holding two_saved" _ _ _ "''carol''" _ "map Object two_saved"]
    storage_holding_reads [of two_saved] n c
  have "\<exists>ls3. removeProfile (storage_holding two_saved) (Some ''carol'') = Inr (True, ls3) \<and>
        getSavedProfiles ls3 = Inr (Array (map Object two_saved))" by blast
  ultimately show ?thesis by blast
qed

text \<open>
  Claim C9 as stated fails on a storage whose write fails: \<open>removeProfile\<close> returns
  \<open>false\<close>, for a listed and for an unlisted username alike, and the listed entry is
  still there afterwards.
\<close>

theorem removeProfile_full_storage_counterexample:
  "removeProfile full_storage (Some ''alice'') = Inr (False, full_storage) \<and>
   isProfileSaved (storage_after full_storage (removeProfile full_storage (Some ''alice'')))
     (Some ''alice'') = Inr True \<and>
   isProfileSaved full_storage (Some ''carol'') = Inr False \<and>
   removeProfile full_storage (Some ''carol'') = Inr (False, full_storage)"
  by code_simp

subsection \<open>Failures of the storage\<close>











subsection \<open>Sorting and ranking\<close>

lemma insert_by_insort_key:
  assumes "\<And>a b. (cmp a b \<le> 0) = (f a \<le> f b)"
  shows "insert_by cmp x ys = insort_key f x ys"
  by (induction ys) (simp_all add: assms)

lemma array_sort_sort_key:
  assumes "\<And>a b. (cmp a b \<le> 0) = (f a \<le> f b)"
  shows "array_sort cmp xs = sort_key f xs"
proof -
  have "insert_by cmp = insort_key f"
    by (intro ext) (rule insert_by_insort_key [OF assms])
  then show ?thesis by (simp add: array_sort_def sort_key_def)
qed

lemma sort_key_negated:
  fixes f :: "'a \<Rightarrow> real"
  assumes "distinct (map f xs)"
  shows "sort_key (\<lambda>x. - f x) xs = rev (sort_key f xs)"
proof (rule map_sorted_distinct_set_unique [where f = "\<lambda>x. - f x"])
  from assms have inj: "inj_on f (set xs)" and d: "distinct xs"
    by (simp_all add: distinct_map)
  from inj have injn: "inj_on (\<lambda>x. - f x) (set xs)"
    by (auto simp: inj_on_def)
  then show "inj_on (\<lambda>x. - f x) (set (sort_key (\<lambda>x. - f x) xs) \<union> set (rev (sort_key f xs)))"
    by simp
  show "sorted (map (\<lambda>x. - f x) (sort_key (\<lambda>x. - f x) xs))"
    by (rule sorted_sort_key)
  show "distinct (map (\<lambda>x. - f x) (sort_key (\<lambda>x. - f x) xs))"
    using injn d by (simp add: distinct_map)
  have "sorted (map f (sort_key f xs))" by (rule sorted_sort_key)
  then show "sorted (map (\<lambda>x. - f x) (rev (sort_key f xs)))"
    by (simp add: sorted_map sorted_wrt_rev)
  show "distinct (map (\<lambda>x. - f x) (rev (sort_key f xs)))"
    using injn d by (simp add: distinct_map)
  show "set (sort_key (\<lambda>x. - f x) xs) = set (rev (sort_key f xs))"
    by simp
qed

lemma comparator_score_asc:
  "(comparator h ''score'' ''asc'' a b \<le> 0) = (final_score a \<le> final_score b)"
  by (simp add: comparator_def)

lemma comparator_score_desc:
  "(comparator h ''score'' ''desc'' a b \<le> 0) = (- final_score a \<le> - final_score b)"
  by (simp add: comparator_def)

text \<open>
  Claim C7. When no two elements have the same \<open>final_score\<close>, sorting by \<open>score\<close> in
  \<open>desc\<close> order gives the reverse of sorting the same list by \<open>score\<close> in \<open>asc\<close> order.
\<close>

theorem sortProfiles_score_desc_is_reversed_asc:
  assumes "distinct (map final_score profiles)"
  shows "sortProfiles h profiles ''score'' ''desc'' = rev (sortProfiles h profiles ''score'' ''asc'')"
proof -
  have "sortProfiles h profiles ''score'' ''asc'' = sort_key final_score profiles"
    unfolding sortProfiles_def by (rule array_sort_sort_key) (rule comparator_score_asc)
  moreover have "sortProfiles h profiles ''score'' ''desc'' = sort_key (\<lambda>p. - final_score p) profiles"
    unfolding sortProfiles_def by (rule array_sort_sort_key) (rule comparator_score_desc)
  ultimately show ?thesis using sort_key_negated [OF assms] by simp
qed

theorem sortProfiles_score_desc_is_reversed_asc_witness:
  "distinct (map final_score three_results) \<and>
   sortProfiles ascii_host three_results ''score'' ''asc'' =
     [rated ''b'' 60, rated ''c'' 75, rated ''a'' 90] \<and>
   sortProfiles ascii_host three_results ''score'' ''desc'' =
     [rated ''a'' 90, rated ''c'' 75, rated ''b'' 60]"
proof -
  have d: "distinct (map final_score three_results)"
    by (simp add: three_results_def rated_def)
  have a: "sortProfiles ascii_host three_results ''score'' ''asc'' =
     [rated ''b'' 60, rated ''c'' 75, rated ''a'' 90]"
    by (simp add: sortProfiles_def array_sort_def comparator_def three_results_def rated_def)
  from sortProfiles_score_desc_is_reversed_asc [OF d, of ascii_host] a d show ?thesis by simp
qed

lemma rank_sort_key:
  "array_sort (\<lambda>a b. final_score b - final_score a) ps = sort_key (\<lambda>p. - final_score p) ps"
  by (rule array_sort_sort_key) simp

text \<open>
  Claim C8. Given two or more results, \<open>CompareView\<close> ranks them: the leaderboard is a
  rearrangement of the input in descending order of \<open>final_score\<close>, and the results with
  any one score appear in their input order. Scores 90, 60, 75 come out as 90, 75, 60.
\<close>

theorem CompareView_ranks_descending_stable:
  "(2 \<le> length ps \<longrightarrow>
      (\<exists>ranked. CompareView (Some ps) = Leaderboard ranked \<and>
         sorted_wrt (\<lambda>a b. final_score b \<le> final_score a) ranked \<and>
         mset ranked = mset ps \<and>
         (\<forall>k. filter (\<lambda>p. final_score p = k) ranked = filter (\<lambda>p. final_score p = k) ps)))
   \<and> (final_score a = 90 \<and> final_score b = 60 \<and> final_score c = 75 \<longrightarrow>
        CompareView (Some [a, b, c]) = Leaderboard [a, c, b])"
proof (intro conjI impI)
  assume len: "2 \<le> length ps"
  let ?r = "sort_key (\<lambda>p. - final_score p) ps"
  have view: "CompareView (Some ps) = Leaderboard ?r"
    using len by (simp add: CompareView_def rank_sort_key)
  have "sorted (map (\<lambda>p. - final_score p) ?r)" by (rule sorted_sort_key)
  then have desc: "sorted_wrt (\<lambda>a b. final_score b \<le> final_score a) ?r"
    by (simp add: sorted_map)
  have perm: "mset ?r = mset ps" by simp
  have stable: "filter (\<lambda>p. final_score p = k) ?r = filter (\<lambda>p. final_score p = k) ps" for k
    using sort_key_stable [of "\<lambda>p. - final_score p" "- k" ps] by simp
  from view desc perm stable
  show "\<exists>ranked. CompareView (Some ps) = Leaderboard ranked \<and>
         sorted_wrt (\<lambda>a b. final_score b \<le> final_score a) ranked \<and>
         mset ranked = mset ps \<and>
         (\<forall>k. filter (\<lambda>p. final_score p = k) ranked = filter (\<lambda>p. final_score p = k) ps)"
    by blast
next
  assume "final_score a = 90 \<and> final_score b = 60 \<and> final_score c = 75"
  then show "CompareView (Some [a, b, c]) = Leaderboard [a, c, b]"
    by (simp add: CompareView_def array_sort_def)
qed

theorem CompareView_ranks_descending_stable_witness:
  "CompareView (Some three_results) = Leaderboard [rated ''a'' 90, rated ''c'' 75, rated ''b'' 60]
   \<and> (\<exists>ranked. CompareView (Some three_results) = Leaderboard ranked \<and>
         sorted_wrt (\<lambda>a b. final_score b \<le> final_score a) ranked \<and>
         mset ranked = mset three_results)"
proof -
  have l: "2 \<le> length three_results" by (simp add: three_results_def)
  have s: "final_score (rated ''a'' 90) = 90 \<and> final_score (rated ''b'' 60) = 60 \<and>
      final_score (rated ''c'' 75) = 75" by (simp add: rated_def)
  from CompareView_ranks_descending_stable [of three_results "rated ''a'' 90" "rated ''b'' 60"
      "rated ''c'' 75"] l s
  show ?thesis unfolding three_results_def by blast
qed

text \<open>
  Claim C3. Given no list or fewer than two results, \<open>CompareView\<close> itself checks the
  input and returns the refusal (the view that reads "Need at least 2 profiles to
  compare", the outcome the specification calls ComparisonError), never a leaderboard.
\<close>

theorem CompareView_refuses_fewer_than_two:
  "CompareView None = NeedAtLeast2Profiles
   \<and> (length ps < 2 \<longrightarrow>
        CompareView (Some ps) = NeedAtLeast2Profiles \<and>
        (\<forall>ranked. CompareView (Some ps) \<noteq> Leaderboard ranked))"
  by (simp add: CompareView_def)

theorem CompareView_refuses_fewer_than_two_witness:
  "CompareView (Some []) = NeedAtLeast2Profiles \<and>
   CompareView (Some [rated ''a'' 90]) = NeedAtLeast2Profiles"
  using CompareView_refuses_fewer_than_two [of "[]"]
    CompareView_refuses_fewer_than_two [of "[rated ''a'' 90]"]
  by simp

text \<open>
  Claim C6. The filter \<open>all\<close> returns the input list itself; any other tier \<open>t\<close> returns
  exactly the elements whose tier is \<open>t\<close>, in their input order.
\<close>

theorem filterByTier_all_and_tier:
  "filterByTier profiles ''all'' = profiles
   \<and> (t \<noteq> ''all'' \<longrightarrow>
        filterByTier profiles t = filter (\<lambda>p. tier p = t) profiles \<and>
        set (filterByTier profiles t) = {p \<in> set profiles. tier p = t} \<and>
        subseq (filterByTier profiles t) profiles)"
  by (simp add: filterByTier_def)

theorem filterByTier_all_and_tier_witness:
  "filterByTier mixed_tiers ''all'' = mixed_tiers \<and>
   filterByTier mixed_tiers ''Elite'' = [tiered ''a'' ''Elite'' 90, tiered ''c'' ''Elite'' 95]"
proof -
  have n: "''Elite'' \<noteq> ''all''" by simp
  have f: "filter (\<lambda>p. tier p = ''Elite'') mixed_tiers =
      [tiered ''a'' ''Elite'' 90, tiered ''c'' ''Elite'' 95]"
    by (simp add: mixed_tiers_def tiered_def)
  from filterByTier_all_and_tier [of mixed_tiers "''Elite''"] n f show ?thesis by simp
qed

subsection \<open>The rating client\<close>

text \<open>
  Claim C4, as amended. When the response is not ok, \<open>rateDeveloper\<close> fails with the
  plain \<open>Error\<close> whose message is "Failed to rate developer"; when \<open>fetch\<close> rejects, it
  fails with that rejection, unchanged, which for the \<open>TypeError\<close> of a network failure
  differs from the former; when the response is ok it returns the parsed body.
\<close>

theorem rateDeveloper_failures:
  "(fetch (rate_request usr) = Inr response \<and> \<not> ok response \<longrightarrow>
      rateDeveloper fetch usr = Inl (Error ''Failed to rate developer''))
   \<and> (fetch (rate_request usr) = Inl e \<longrightarrow> rateDeveloper fetch usr = Inl e)
   \<and> (fetch (rate_request usr) = Inl (TypeError m) \<longrightarrow>
        rateDeveloper fetch usr \<noteq> Inl (Error ''Failed to rate developer''))
   \<and> (fetch (rate_request usr) = Inr response \<and> ok response \<longrightarrow>
        rateDeveloper fetch usr = json response)"
  by (simp add: rateDeveloper_def rate_request_def)

theorem rateDeveloper_failures_witness:
  "rateDeveloper (responds 404) ''octocat'' = Inl (Error ''Failed to rate developer'')
   \<and> rateDeveloper offline ''octocat'' = Inl (TypeError ''Failed to fetch'')
   \<and> rateDeveloper offline ''octocat'' \<noteq> rateDeveloper (responds 404) ''octocat''
   \<and> rateDeveloper (responds 200) ''octocat'' = Inr ''{}''"
proof -
  have a: "responds 404 (rate_request ''octocat'') = Inr \<lparr>status = 404, json = Inr ''{}''\<rparr> \<and>
      \<not> ok \<lparr>status = 404, json = Inr ''{}'' :: js_error + string\<rparr>"
    by (simp add: responds_def ok_def)
  have b: "offline (rate_request ''octocat'') = Inl (TypeError ''Failed to fetch'')"
    by (simp add: offline_def)
  have c: "responds 200 (rate_request ''octocat'') = Inr \<lparr>status = 200, json = Inr ''{}''\<rparr> \<and>
      ok \<lparr>status = 200, json = Inr ''{}'' :: js_error + string\<rparr>"
    by (simp add: responds_def ok_def)
  from rateDeveloper_failures [of "responds 404" "''octocat''"
      "\<lparr>status = 404, json = Inr ''{}''\<rparr>"] a
  have r1: "rateDeveloper (responds 404) ''octocat'' = Inl (Error ''Failed to rate developer'')"
    by blast
  from rateDeveloper_failures [of offline "''octocat''" _ "TypeError ''Failed to fetch''"
      "''Failed to fetch''"] b
  have r2: "rateDeveloper offline ''octocat'' = Inl (TypeError ''Failed to fetch'')"
    by blast
  from rateDeveloper_failures [of "responds 200" "''octocat''"
      "\<lparr>status = 200, json = Inr ''{}''\<rparr>"] c
  have r3: "rateDeveloper (responds 200) ''octocat'' = Inr ''{}''"
    by simp
  from r1 r2 r3 show ?thesis by simp
qed

text \<open>
  Claim C4 as stated fails: the error thrown for status 404 is the error thrown for
  status 500, so it carries no status.
\<close>

theorem rateDeveloper_status_counterexample:
  "rateDeveloper (responds 404) ''octocat'' = Inl (Error ''Failed to rate developer'') \<and>
   rateDeveloper (responds 500) ''octocat'' = Inl (Error ''Failed to rate developer'')"
  by (simp add: rateDeveloper_def responds_def ok_def)

end
